theory Spec2Isabelle
  imports
    Main
    "HOL-Library.Finite_Map"
    "HOL-Library.Char_ord"
    "HOL-Library.List_Lexorder"
begin

section \<open>The Dojo entity store (packages/svelte-sdk/src/state/svelte.ts)\<close>

text \<open>
  The store keeps one immutable snapshot, \<open>GameState\<close>, inside a Svelte writable store and
  changes it through immer (\<open>produce\<close>, \<open>produceWithPatches\<close>, \<open>applyPatches\<close>).
  JavaScript objects used as dictionaries are finite maps keyed by strings; two objects are
  structurally equal exactly when the maps are equal, so key order is not part of a value.
  Where the store branches on what a dictionary read \<open>dict[key]\<close> returns (the guard of
  \<open>updateEntity\<close>, the lookup of \<open>revertOptimisticUpdate\<close>), the read is the JavaScript
  one, which follows the prototype chain (\<open>readProperty\<close> below).  Assignments
  \<open>dict[key] = v\<close> and \<open>delete dict[key]\<close> are modelled on the own properties.
\<close>

subsection \<open>Values\<close>

text \<open>
  Field values of a model are arbitrary JSON-like data.  Numbers are kept as integers (their
  arithmetic is never used by the store).
\<close>

datatype jv =
    JNull
  | JBool bool
  | JNum int
  | JStr string
  | JArr "jv list"
  | JObj "(string, jv) fmap"

datatype error =
    TypeError
  | ReferenceError
  | ImmerError
  | PatchError
  | ShapeError
  | TimeoutError nat

subsection \<open>Reading a property of a dictionary\<close>

text \<open>
  A dictionary of the store is a plain JavaScript object, so \<open>dict[key]\<close> yields the own
  property if there is one, otherwise what \<open>Object.prototype\<close> provides under that name,
  and otherwise \<open>undefined\<close>.  \<open>Object.prototype\<close> has the twelve property names listed
  here; eleven hold functions and \<open>__proto__\<close> is an accessor that returns the prototype
  object.  An inherited value is truthy in every case, and it has none of the properties
  (\<open>models\<close>, \<open>inversePatches\<close>) that the store reads from it.
\<close>

definition objectPrototypeNames :: "string list" where
  "objectPrototypeNames =
     [''constructor'', ''__defineGetter__'', ''__defineSetter__'', ''hasOwnProperty'',
      ''__lookupGetter__'', ''__lookupSetter__'', ''isPrototypeOf'', ''propertyIsEnumerable'',
      ''toString'', ''valueOf'', ''__proto__'', ''toLocaleString'']"

datatype 'a property = Own 'a | Inherited | Undefined

definition readProperty :: "(string, 'a) fmap \<Rightarrow> string \<Rightarrow> 'a property" where
  "readProperty dict key =
     (case fmlookup dict key of
        Some v \<Rightarrow> Own v
      | None \<Rightarrow> if key \<in> set objectPrototypeNames then Inherited else Undefined)"

subsection \<open>Patches\<close>

text \<open>
  immer's \<open>Patch\<close> is \<open>{op: "add" | "replace" | "remove", path, value?}\<close>: a union tagged by
  \<open>op\<close>, where only \<open>remove\<close> carries no value.  Paths are lists of property names.
\<close>

datatype Patch =
    Add "string list" jv
  | Replace "string list" jv
  | Remove "string list"

fun path :: "Patch \<Rightarrow> string list" where
  "path (Add p v) = p"
| "path (Replace p v) = p"
| "path (Remove p) = p"

text \<open>\<open>underKey k p\<close> is the patch \<open>p\<close> of a child, as seen from the parent object that holds the child at key \<open>k\<close>.\<close>

fun underKey :: "string \<Rightarrow> Patch \<Rightarrow> Patch" where
  "underKey k (Add p v) = Add (k # p) v"
| "underKey k (Replace p v) = Replace (k # p) v"
| "underKey k (Remove p) = Remove (k # p)"

text \<open>
  Modelled from the spec: immer's \<open>applyPatches\<close> is a dependency and not part of the
  repository.  The spec (section 3) describes a patch as a structural operation
  (add / replace / remove) at a path within the cache state.  The model follows immer on
  plain objects: every path component but the last must resolve to an object (else immer
  dies with "Cannot apply patch, path doesn't resolve"); at the last component \<open>add\<close> and
  \<open>replace\<close> both assign \<open>base[key] = value\<close> and \<open>remove\<close> is \<open>delete base[key]\<close>; a
  \<open>replace\<close> with the empty path replaces the whole value.  Patches that descend into
  arrays are outside the model and are reported as \<open>PatchError\<close>.
\<close>

fun patchAt :: "string list \<Rightarrow> ((string, jv) fmap \<Rightarrow> string \<Rightarrow> (string, jv) fmap) \<Rightarrow> jv \<Rightarrow> error + jv" where
  "patchAt [] g base = Inl PatchError"
| "patchAt [key] g (JObj m) = Inr (JObj (g m key))"
| "patchAt (p # q # rest) g (JObj m) =
     (case fmlookup m p of
        None \<Rightarrow> Inl PatchError
      | Some child \<Rightarrow>
          (case patchAt (q # rest) g child of
             Inl e \<Rightarrow> Inl e
           | Inr child' \<Rightarrow> Inr (JObj (fmupd p child' m))))"
| "patchAt (p # rest) g base = Inl PatchError"

fun applyPatch :: "Patch \<Rightarrow> jv \<Rightarrow> error + jv" where
  "applyPatch (Replace [] v) base = Inr v"
| "applyPatch (Replace p v) base = patchAt p (\<lambda>m key. fmupd key v m) base"
| "applyPatch (Add p v) base = patchAt p (\<lambda>m key. fmupd key v m) base"
| "applyPatch (Remove p) base = patchAt p (\<lambda>m key. fmdrop key m) base"

fun applyPatchesJ :: "Patch list \<Rightarrow> jv \<Rightarrow> error + jv" where
  "applyPatchesJ [] base = Inr base"
| "applyPatchesJ (p # ps) base =
     (case applyPatch p base of
        Inl e \<Rightarrow> Inl e
      | Inr base' \<Rightarrow> applyPatchesJ ps base')"

text \<open>
  Modelled from the spec: immer's patch generation inside \<open>produceWithPatches\<close> is a
  dependency and not part of the repository.  The spec (sections 3, 4.2 and 9) asks for
  the forward and the inverse edit script, computed "from a single diff of
  draft-vs-original", each "an ordered sequence of structural operations (add / replace /
  remove at a path)" that rebuilds one snapshot from the other.  \<open>diffv x y\<close> is that
  structural diff: the script that turns \<open>x\<close> into \<open>y\<close>.  Objects are compared key by
  key (keys visited in sorted order) and recursively; everything else, arrays included,
  is compared as a whole and replaced as a whole.
\<close>

definition keyDiff :: "string \<Rightarrow> (jv \<Rightarrow> Patch list) option \<Rightarrow> jv option \<Rightarrow> Patch list" where
  "keyDiff k d y =
     (case d of
        Some childDiff \<Rightarrow>
          (case y of
             Some y' \<Rightarrow> map (underKey k) (childDiff y')
           | None \<Rightarrow> [Remove [k]])
      | None \<Rightarrow>
          (case y of
             Some y' \<Rightarrow> [Add [k] y']
           | None \<Rightarrow> []))"

primrec diffv :: "jv \<Rightarrow> jv \<Rightarrow> Patch list" where
  "diffv JNull y = (if y = JNull then [] else [Replace [] y])"
| "diffv (JBool b) y = (if y = JBool b then [] else [Replace [] y])"
| "diffv (JNum n) y = (if y = JNum n then [] else [Replace [] y])"
| "diffv (JStr s) y = (if y = JStr s then [] else [Replace [] y])"
| "diffv (JArr xs) y = (if y = JArr xs then [] else [Replace [] y])"
| "diffv (JObj a) y =
     (case y of
        JObj b \<Rightarrow>
          concat (map (\<lambda>k. keyDiff k (fmlookup (fmmap diffv a) k) (fmlookup b k))
                      (sorted_list_of_fset (fmdom a |\<union>| fmdom b)))
      | _ \<Rightarrow> [Replace [] y])"

subsection \<open>The data model\<close>

text \<open>
  \<open>ParsedEntity\<close> (from \<open>../types\<close>) is \<open>{entityId: string, models: {namespace: {model:
  fields}}}\<close>; \<open>Partial<ParsedEntity>\<close> makes both properties optional.
  \<open>PendingTransaction\<close> and \<open>GameState\<close> are the two interfaces of svelte.ts.
\<close>

type_synonym fields = "(string, jv) fmap"
type_synonym models_t = "(string, (string, fields) fmap) fmap"

record ParsedEntity =
  entityId :: string
  models :: models_t


record PendingTransaction =
  transactionId :: string
  patches :: "Patch list"
  inversePatches :: "Patch list"

record GameState =
  entities :: "(string, ParsedEntity) fmap"
  pendingTransactions :: "(string, PendingTransaction) fmap"

subsection \<open>The cache state as a plain value\<close>

text \<open>
  immer diffs and patches the state as a tree of plain objects.  \<open>enc_state\<close> is that tree
  and \<open>dec_state\<close> reads a tree back; a tree that does not have the shape of a
  \<open>GameState\<close> has no typed reading.
\<close>

definition enc_models :: "models_t \<Rightarrow> jv" where
  "enc_models ms = JObj (fmmap (\<lambda>nsm. JObj (fmmap JObj nsm)) ms)"

definition enc_entity :: "ParsedEntity \<Rightarrow> jv" where
  "enc_entity e =
     JObj (fmap_of_list [(''entityId'', JStr (entityId e)), (''models'', enc_models (models e))])"

fun enc_patch :: "Patch \<Rightarrow> jv" where
  "enc_patch (Add p v) =
     JObj (fmap_of_list [(''op'', JStr ''add''), (''path'', JArr (map JStr p)), (''value'', v)])"
| "enc_patch (Replace p v) =
     JObj (fmap_of_list [(''op'', JStr ''replace''), (''path'', JArr (map JStr p)), (''value'', v)])"
| "enc_patch (Remove p) =
     JObj (fmap_of_list [(''op'', JStr ''remove''), (''path'', JArr (map JStr p))])"

definition enc_pending :: "PendingTransaction \<Rightarrow> jv" where
  "enc_pending t =
     JObj (fmap_of_list
       [(''transactionId'', JStr (transactionId t)),
        (''patches'', JArr (map enc_patch (patches t))),
        (''inversePatches'', JArr (map enc_patch (inversePatches t)))])"

definition enc_state :: "GameState \<Rightarrow> jv" where
  "enc_state s =
     JObj (fmap_of_list
       [(''entities'', JObj (fmmap enc_entity (entities s))),
        (''pendingTransactions'', JObj (fmmap enc_pending (pendingTransactions s)))])"

definition dec_obj :: "(jv \<Rightarrow> 'a option) \<Rightarrow> jv \<Rightarrow> (string, 'a) fmap option" where
  "dec_obj d v =
     (case v of
        JObj m \<Rightarrow>
          if fmpred (\<lambda>k x. d x \<noteq> None) m then Some (fmmap (\<lambda>x. the (d x)) m) else None
      | _ \<Rightarrow> None)"

definition dec_list :: "(jv \<Rightarrow> 'a option) \<Rightarrow> jv \<Rightarrow> 'a list option" where
  "dec_list d v =
     (case v of
        JArr xs \<Rightarrow>
          if list_all (\<lambda>x. d x \<noteq> None) xs then Some (map (\<lambda>x. the (d x)) xs) else None
      | _ \<Rightarrow> None)"

definition dec_str :: "jv \<Rightarrow> string option" where
  "dec_str v = (case v of JStr s \<Rightarrow> Some s | _ \<Rightarrow> None)"

definition dec_fields :: "jv \<Rightarrow> fields option" where
  "dec_fields v = (case v of JObj f \<Rightarrow> Some f | _ \<Rightarrow> None)"

definition dec_models :: "jv \<Rightarrow> models_t option" where
  "dec_models = dec_obj (dec_obj dec_fields)"

definition dec_entity :: "jv \<Rightarrow> ParsedEntity option" where
  "dec_entity v =
     (case v of
        JObj m \<Rightarrow>
          (case (Option.bind (fmlookup m ''entityId'') dec_str,
                 Option.bind (fmlookup m ''models'') dec_models) of
             (Some i, Some ms) \<Rightarrow>
               if fmdom m = {|''entityId'', ''models''|}
               then Some \<lparr>entityId = i, models = ms\<rparr> else None
           | _ \<Rightarrow> None)
      | _ \<Rightarrow> None)"

definition dec_patch :: "jv \<Rightarrow> Patch option" where
  "dec_patch v =
     (case v of
        JObj m \<Rightarrow>
          (case (Option.bind (fmlookup m ''op'') dec_str,
                 Option.bind (fmlookup m ''path'') (dec_list dec_str)) of
             (Some opr, Some p) \<Rightarrow>
               (case fmlookup m ''value'' of
                  Some x \<Rightarrow>
                    if fmdom m \<noteq> {|''op'', ''path'', ''value''|} then None
                    else if opr = ''add'' then Some (Add p x)
                    else if opr = ''replace'' then Some (Replace p x)
                    else None
                | None \<Rightarrow>
                    if fmdom m = {|''op'', ''path''|} \<and> opr = ''remove''
                    then Some (Remove p) else None)
           | _ \<Rightarrow> None)
      | _ \<Rightarrow> None)"

definition dec_pending :: "jv \<Rightarrow> PendingTransaction option" where
  "dec_pending v =
     (case v of
        JObj m \<Rightarrow>
          (case (Option.bind (fmlookup m ''transactionId'') dec_str,
                 Option.bind (fmlookup m ''patches'') (dec_list dec_patch),
                 Option.bind (fmlookup m ''inversePatches'') (dec_list dec_patch)) of
             (Some t, Some ps, Some ips) \<Rightarrow>
               if fmdom m = {|''transactionId'', ''patches'', ''inversePatches''|}
               then Some \<lparr>transactionId = t, patches = ps, inversePatches = ips\<rparr> else None
           | _ \<Rightarrow> None)
      | _ \<Rightarrow> None)"

definition dec_state :: "jv \<Rightarrow> GameState option" where
  "dec_state v =
     (case v of
        JObj m \<Rightarrow>
          (case (Option.bind (fmlookup m ''entities'') (dec_obj dec_entity),
                 Option.bind (fmlookup m ''pendingTransactions'') (dec_obj dec_pending)) of
             (Some es, Some ps) \<Rightarrow>
               if fmdom m = {|''entities'', ''pendingTransactions''|}
               then Some \<lparr>entities = es, pendingTransactions = ps\<rparr> else None
           | _ \<Rightarrow> None)
      | _ \<Rightarrow> None)"

subsection \<open>immer: produce, produceWithPatches, applyPatches\<close>

text \<open>
  Modelled from the spec: \<open>produce\<close>, \<open>produceWithPatches\<close> and \<open>applyPatches\<close> of immer
  are a dependency and not part of the repository.  A recipe mutates a draft; its effect
  is the function from the draft it receives to the draft it leaves behind (TypeScript
  types the draft as a \<open>Draft<GameState>\<close>, so what is left behind is a \<open>GameState\<close>).  A recipe
  passed in by the caller (\<open>updateFn\<close>) may throw, for instance when it reads a property
  of \<open>undefined\<close>, and then the call that runs it throws; the recipes written in svelte.ts
  do not throw.  \<open>produce\<close> returns the finished draft as the next state.
  \<open>produceWithPatches\<close> returns in addition the forward and the inverse script (spec,
  section 4.2: "computes the new state, the forward patch script, and the inverse patch
  script from a single diff of draft-vs-original").  \<open>applyPatches\<close> applies a script to
  a state; it fails where immer throws, and with \<open>ShapeError\<close> where the patched tree is
  no longer a \<open>GameState\<close>.  (immer produces and applies patches only once its patches
  plug-in is enabled; svelte.ts does not enable it itself, and the model takes it to be
  enabled.)
\<close>

definition produce :: "GameState \<Rightarrow> (GameState \<Rightarrow> GameState) \<Rightarrow> GameState" where
  "produce base recipe = recipe base"

definition produceWithPatches ::
  "GameState \<Rightarrow> (GameState \<Rightarrow> error + GameState) \<Rightarrow> error + (GameState \<times> Patch list \<times> Patch list)" where
  "produceWithPatches base recipe =
     (case recipe base of
        Inl e \<Rightarrow> Inl e
      | Inr next \<Rightarrow>
          Inr (next,
               diffv (enc_state base) (enc_state next),
               diffv (enc_state next) (enc_state base)))"

definition applyPatches :: "GameState \<Rightarrow> Patch list \<Rightarrow> error + GameState" where
  "applyPatches base ps =
     (case applyPatchesJ ps (enc_state base) of
        Inl e \<Rightarrow> Inl e
      | Inr t \<Rightarrow> (case dec_state t of None \<Rightarrow> Inl ShapeError | Some s \<Rightarrow> Inr s))"

subsection \<open>The Svelte store\<close>

text \<open>
  Modelled from the spec: \<open>writable\<close> and \<open>get\<close> of svelte/store are a dependency and not
  part of the repository.  The spec (section 4.3) says that a subscribed listener is
  invoked "with every new Cache State snapshot, starting from the current one", that
  "delivery order matches mutation order" and that nothing is coalesced.  A store is its
  current value together with \<open>delivered\<close>, the snapshots handed so far to a listener that
  subscribed when the store was created, oldest first.  \<open>set\<close> installs a value and
  notifies; \<open>update fn\<close> is \<open>set (fn value)\<close>.
\<close>

record Store =
  current :: GameState
  delivered :: "GameState list"

definition initialState :: GameState where
  "initialState = \<lparr>entities = fmempty, pendingTransactions = fmempty\<rparr>"

definition createDojoStore :: Store where
  "createDojoStore = \<lparr>current = initialState, delivered = [initialState]\<rparr>"

definition get_store :: "Store \<Rightarrow> GameState" where
  "get_store store = current store"

definition set_store :: "GameState \<Rightarrow> Store \<Rightarrow> Store" where
  "set_store v store = \<lparr>current = v, delivered = delivered store @ [v]\<rparr>"

definition update_store :: "(GameState \<Rightarrow> GameState) \<Rightarrow> Store \<Rightarrow> Store" where
  "update_store fn store = set_store (fn (current store)) store"




definition stateOf :: "error + Store \<Rightarrow> error + GameState" where
  "stateOf r = (case r of Inl e \<Rightarrow> Inl e | Inr store \<Rightarrow> Inr (current store))"


subsection \<open>setEntities and updateEntity\<close>

definition setEntities :: "ParsedEntity list \<Rightarrow> Store \<Rightarrow> Store" where
  "setEntities es =
     update_store (\<lambda>state. produce state (\<lambda>draft.
       fold (\<lambda>entity d. d\<lparr>entities := fmupd (entityId entity) entity (entities d)\<rparr>) es draft))"





subsection \<open>Optimistic updates\<close>

definition applyOptimisticUpdate ::
  "string \<Rightarrow> (GameState \<Rightarrow> error + GameState) \<Rightarrow> Store \<Rightarrow> error + Store" where
  "applyOptimisticUpdate tid updateFn store =
     (let currentState = get_store store in
      case produceWithPatches currentState updateFn of
        Inl e \<Rightarrow> Inl e
      | Inr (nextState, ps, ips) \<Rightarrow>
          Inr (update_store (\<lambda>state. produce state (\<lambda>draft.
                 draft\<lparr>pendingTransactions :=
                   fmupd tid \<lparr>transactionId = tid, patches = ps, inversePatches = ips\<rparr>
                     (pendingTransactions draft)\<rparr>))
               (set_store nextState store)))"

text \<open>
  \<open>currentState.pendingTransactions[transactionId]\<close> is tested for truthiness.  For a
  transaction id that is a property name of \<open>Object.prototype\<close> and has no record, the
  inherited value passes the test; its \<open>inversePatches\<close> is \<open>undefined\<close>, and
  \<open>applyPatches(currentState, undefined)\<close> throws a TypeError.
\<close>

definition revertOptimisticUpdate :: "string \<Rightarrow> Store \<Rightarrow> error + Store" where
  "revertOptimisticUpdate tid store =
     (let currentState = get_store store in
      case readProperty (pendingTransactions currentState) tid of
        Undefined \<Rightarrow> Inr store
      | Inherited \<Rightarrow> Inl TypeError
      | Own transaction \<Rightarrow>
          (case applyPatches currentState (inversePatches transaction) of
             Inl e \<Rightarrow> Inl e
           | Inr newState \<Rightarrow>
               Inr (update_store (\<lambda>state. produce state (\<lambda>draft.
                      draft\<lparr>pendingTransactions := fmdrop tid (pendingTransactions draft)\<rparr>))
                    (set_store newState store))))"


definition confirmTransaction :: "string \<Rightarrow> Store \<Rightarrow> Store" where
  "confirmTransaction tid =
     update_store (\<lambda>state. produce state (\<lambda>draft.
       draft\<lparr>pendingTransactions := fmdrop tid (pendingTransactions draft)\<rparr>))"

subsection \<open>Reads\<close>

definition getEntity :: "string \<Rightarrow> Store \<Rightarrow> ParsedEntity option" where
  "getEntity eid store = (let state = get_store store in fmlookup (entities state) eid)"

text \<open>\<open>Object.values\<close> lists the entities (in key order in the model).\<close>

definition getEntities :: "(ParsedEntity \<Rightarrow> bool) option \<Rightarrow> Store \<Rightarrow> ParsedEntity list" where
  "getEntities flt store =
     (let state = get_store store;
          allEntities = map snd (sorted_list_of_fmap (entities state))
      in case flt of Some f \<Rightarrow> filter f allEntities | None \<Rightarrow> allEntities)"

text \<open>
  The recipe \<open>draft => draft.entities[id].models.NS.M.field = V\<close>: reading a property of
  \<open>undefined\<close> throws a TypeError, so the recipe throws unless the entity, the namespace and
  the model are all there.
\<close>

definition setModelField ::
  "string \<Rightarrow> string \<Rightarrow> string \<Rightarrow> string \<Rightarrow> jv \<Rightarrow> GameState \<Rightarrow> error + GameState" where
  "setModelField eid ns m field v draft =
     (case fmlookup (entities draft) eid of
        None \<Rightarrow> Inl TypeError
      | Some e \<Rightarrow>
          (case fmlookup (models e) ns of
             None \<Rightarrow> Inl TypeError
           | Some nsm \<Rightarrow>
               (case fmlookup nsm m of
                  None \<Rightarrow> Inl TypeError
                | Some fs \<Rightarrow>
                    Inr (draft\<lparr>entities :=
                           fmupd eid
                             (e\<lparr>models := fmupd ns (fmupd m (fmupd field v fs) nsm) (models e)\<rparr>)
                             (entities draft)\<rparr>))))"

text \<open>Reading \<open>entity.models.NS.M.field\<close>.\<close>

definition modelField :: "ParsedEntity \<Rightarrow> string \<Rightarrow> string \<Rightarrow> string \<Rightarrow> jv option" where
  "modelField e ns m field =
     Option.bind (fmlookup (models e) ns) (\<lambda>nsm.
       Option.bind (fmlookup nsm m) (\<lambda>fs. fmlookup fs field))"


subsection \<open>waitForEntityChange\<close>

text \<open>
  The promise executor of \<open>waitForEntityChange\<close> declares two constants, in this order:
  \<open>unsubscribe\<close>, initialised with the result of \<open>subscribe(listener)\<close>, and \<open>timer\<close>,
  initialised with the result of \<open>setTimeout\<close>.  The listener closes over both.
  \<open>subscribe\<close> registers the listener and calls it at once with the current state (spec,
  section 4.3: "starting from the current one"), that is, before either constant is
  initialised; reading a \<open>const\<close> before its initialisation throws a ReferenceError, and an
  exception inside a promise executor rejects the promise.  A waiter records whether the
  listener is registered, the state of the \<open>timer\<close> binding and the state of the promise.
  Time is abstracted to the order of events: notifications of the store, and the firing of
  the timer.
\<close>

datatype timer_state = Uninitialized | Armed nat | Cleared | Fired

datatype promise_state = Pending | Resolved "ParsedEntity option" | Rejected error

record Waiter =
  listening :: bool
  timer :: timer_state
  promise :: promise_state

text \<open>A promise is settled once; later calls of \<open>resolve\<close> or \<open>reject\<close> have no effect.\<close>

definition settle :: "promise_state \<Rightarrow> promise_state \<Rightarrow> promise_state" where
  "settle outcome p = (if p = Pending then outcome else p)"

text \<open>The listener (svelte.ts lines 256-263), called with a state snapshot.\<close>

definition waitListener ::
  "string \<Rightarrow> (ParsedEntity option \<Rightarrow> bool) \<Rightarrow> GameState \<Rightarrow> Waiter \<Rightarrow> error + Waiter" where
  "waitListener eid predicate state w =
     (let entity = fmlookup (entities state) eid in
      if predicate entity then
        (case timer w of
           Uninitialized \<Rightarrow> Inl ReferenceError
         | _ \<Rightarrow> Inr \<lparr>listening = False,
                     timer = (case timer w of Armed t \<Rightarrow> Cleared | other \<Rightarrow> other),
                     promise = settle (Resolved entity) (promise w)\<rparr>)
      else Inr w)"

text \<open>The executor (svelte.ts lines 255-273): subscribe, then arm the timer.\<close>

definition waitForEntityChange ::
  "string \<Rightarrow> (ParsedEntity option \<Rightarrow> bool) \<Rightarrow> nat \<Rightarrow> Store \<Rightarrow> Waiter" where
  "waitForEntityChange eid predicate timeout store =
     (let registered = \<lparr>listening = True, timer = Uninitialized, promise = Pending\<rparr> in
      case waitListener eid predicate (current store) registered of
        Inl e \<Rightarrow> registered\<lparr>promise := Rejected e\<rparr>
      | Inr w \<Rightarrow> w\<lparr>timer := Armed timeout\<rparr>)"

text \<open>A later notification of the store reaches the listener only while it is registered.\<close>

definition notify :: "string \<Rightarrow> (ParsedEntity option \<Rightarrow> bool) \<Rightarrow> GameState \<Rightarrow> Waiter \<Rightarrow> error + Waiter" where
  "notify eid predicate state w =
     (if listening w then waitListener eid predicate state w else Inr w)"

text \<open>The timer callback (svelte.ts lines 265-272) runs only if the timer is still armed.\<close>

definition timerFired :: "Waiter \<Rightarrow> Waiter" where
  "timerFired w =
     (case timer w of
        Armed t \<Rightarrow> \<lparr>listening = False, timer = Fired,
                    promise = settle (Rejected (TimeoutError t)) (promise w)\<rparr>
      | _ \<Rightarrow> w)"

subsection \<open>Example data\<close>

text \<open>
  The entity of the spec's end-to-end scenario: \<open>e1\<close> with \<open>Moves.remaining = 0\<close> in the
  namespace \<open>dojo_starter\<close>, a store seeded with it, and a store with two transactions in
  flight.
\<close>

definition exEntity :: ParsedEntity where
  "exEntity =
     \<lparr>entityId = ''e1'',
      models = fmupd ''dojo_starter''
                 (fmupd ''Moves'' (fmupd ''remaining'' (JNum 0) fmempty) fmempty) fmempty\<rparr>"

definition exStore :: Store where
  "exStore = setEntities [exEntity] createDojoStore"

definition exPendingStore :: Store where
  "exPendingStore =
     \<lparr>current =
        \<lparr>entities = fmupd ''e1'' exEntity fmempty,
         pendingTransactions =
           fmupd ''tx1'' \<lparr>transactionId = ''tx1'', patches = [], inversePatches = []\<rparr>
             (fmupd ''tx2'' \<lparr>transactionId = ''tx2'', patches = [], inversePatches = []\<rparr>
                fmempty)\<rparr>,
      delivered = []\<rparr>"

text \<open>
  The optimistic edit of the example application (\<open>remaining = 100\<close>) and the state it
  produces from the seeded store.
\<close>

definition exRecipe :: "GameState \<Rightarrow> error + GameState" where
  "exRecipe = setModelField ''e1'' ''dojo_starter'' ''Moves'' ''remaining'' (JNum 100)"

definition exNext :: GameState where
  "exNext =
     \<lparr>entities = fmupd ''e1''
        \<lparr>entityId = ''e1'',
         models = fmupd ''dojo_starter''
                    (fmupd ''Moves'' (fmupd ''remaining'' (JNum 100) fmempty) fmempty) fmempty\<rparr>
        fmempty,
      pendingTransactions = fmempty\<rparr>"

text \<open>
  The store of the scenario after the optimistic edit: \<open>remaining = 100\<close>, with the
  ledger record of transaction \<open>tx1\<close>, whose scripts replace the one field.
\<close>

definition exRemainingPath :: "string list" where
  "exRemainingPath = [''entities'', ''e1'', ''models'', ''dojo_starter'', ''Moves'', ''remaining'']"

definition exOptimisticStore :: Store where
  "exOptimisticStore =
     \<lparr>current =
        \<lparr>entities = entities exNext,
         pendingTransactions =
           fmupd ''tx1''
             \<lparr>transactionId = ''tx1'',
              patches = [Replace exRemainingPath (JNum 100)],
              inversePatches = [Replace exRemainingPath (JNum 0)]\<rparr>
             fmempty\<rparr>,
      delivered = []\<rparr>"






definition exAlreadyTrue :: "ParsedEntity option \<Rightarrow> bool" where
  "exAlreadyTrue entity \<longleftrightarrow>
     Option.bind entity (\<lambda>e. modelField e ''dojo_starter'' ''Moves'' ''remaining'') = Some (JNum 0)"

subsection \<open>What a subscriber sees during a call\<close>




subsection \<open>Auxiliary notions for the proofs about patches\<close>

text \<open>
  A generated patch either replaces (possibly at the root) or has a non-empty path.
\<close>

definition wf_patch :: "Patch \<Rightarrow> bool" where
  "wf_patch p = (case p of Replace q v \<Rightarrow> True | _ \<Rightarrow> path p \<noteq> [])"

text \<open>
  What the diff of the objects \<open>a\<close> and \<open>b\<close> leaves at key \<open>k\<close> when it is applied to an
  object \<open>M\<close>: \<open>r k\<close> where both have the key (the patched child), nothing where only \<open>a\<close>
  has it, the value of \<open>b\<close> where only \<open>b\<close> has it, and what \<open>M\<close> had otherwise.
\<close>

definition objTarget ::
  "(string, jv) fmap \<Rightarrow> (string, jv) fmap \<Rightarrow> (string \<Rightarrow> jv) \<Rightarrow> (string, jv) fmap \<Rightarrow> string \<Rightarrow> jv option" where
  "objTarget a b r M k =
     (if k |\<in>| fmdom a then (if k |\<in>| fmdom b then Some (r k) else None)
      else if k |\<in>| fmdom b then fmlookup b k else fmlookup M k)"

section \<open>Properties of the patch model\<close>

lemma diffv_JObj:
  "diffv (JObj a) (JObj b) =
     concat (map (\<lambda>k. keyDiff k (map_option diffv (fmlookup a k)) (fmlookup b k))
                 (sorted_list_of_fset (fmdom a |\<union>| fmdom b)))"
  by simp

lemma fmupd_same: "fmlookup m k = Some c \<Longrightarrow> fmupd k c m = m"
  by (rule fmap_ext) auto

lemma applyPatch_underKey:
  assumes "fmlookup m k = Some c" and "wf_patch p"
  shows "applyPatch (underKey k p) (JObj m) =
           (case applyPatch p c of Inl e \<Rightarrow> Inl e | Inr c' \<Rightarrow> Inr (JObj (fmupd k c' m)))"
proof (cases p)
  case (Add q v)
  with assms show ?thesis by (cases q) (auto simp: wf_patch_def)
next
  case (Replace q v)
  with assms show ?thesis by (cases q) (auto simp: wf_patch_def)
next
  case (Remove q)
  with assms show ?thesis by (cases q) (auto simp: wf_patch_def)
qed

lemma applyPatchesJ_underKey:
  assumes "fmlookup m k = Some c" and "\<forall>p \<in> set ps. wf_patch p"
  shows "applyPatchesJ (map (underKey k) ps) (JObj m) =
           (case applyPatchesJ ps c of Inl e \<Rightarrow> Inl e | Inr c' \<Rightarrow> Inr (JObj (fmupd k c' m)))"
  using assms
proof (induction ps arbitrary: m c)
  case Nil
  then show ?case by (simp add: fmupd_same)
next
  case (Cons p ps)
  show ?case
  proof (cases "applyPatch p c")
    case (Inl e)
    with Cons.prems show ?thesis by (simp add: applyPatch_underKey)
  next
    case (Inr c')
    have "fmlookup (fmupd k c' m) k = Some c'" by simp
    from Cons.IH[OF this] Cons.prems(2) Inr Cons.prems(1) show ?thesis
      by (simp add: applyPatch_underKey split: sum.splits)
  qed
qed

lemma applyPatchesJ_append:
  "applyPatchesJ (ps @ qs) t =
     (case applyPatchesJ ps t of Inl e \<Rightarrow> Inl e | Inr t' \<Rightarrow> applyPatchesJ qs t')"
  by (induction ps arbitrary: t) (auto split: sum.splits)

lemma wf_underKey: "wf_patch (underKey k p)"
  by (cases p) (auto simp: wf_patch_def)

lemma wf_diffv: "p \<in> set (diffv x y) \<Longrightarrow> wf_patch p"
proof (induction x arbitrary: y p)
  case (JObj a)
  show ?case
  proof (cases y)
    case (JObj b)
    with JObj.prems obtain k where
      pk: "p \<in> set (keyDiff k (map_option diffv (fmlookup a k)) (fmlookup b k))"
      by auto
    show ?thesis
    proof (cases "fmlookup a k")
      case None
      with pk show ?thesis by (auto simp: keyDiff_def wf_patch_def split: option.splits)
    next
      case (Some x)
      then have "x \<in> fmran' a" by (auto simp: fmlookup_ran'_iff)
      with pk Some show ?thesis
        by (auto simp: keyDiff_def wf_underKey split: option.splits) (simp add: wf_patch_def)
    qed
  qed (use JObj.prems in \<open>auto simp: wf_patch_def\<close>)
qed (auto simp: wf_patch_def split: if_splits)

lemma key_apply:
  assumes "\<And>x y. fmlookup a k = Some x \<Longrightarrow> fmlookup b k = Some y \<Longrightarrow>
             \<exists>c. fmlookup M k = Some c \<and> applyPatchesJ (diffv x y) c = Inr (r k)"
  shows "\<exists>M1. applyPatchesJ (keyDiff k (map_option diffv (fmlookup a k)) (fmlookup b k)) (JObj M)
                 = Inr (JObj M1)
               \<and> (\<forall>k'. fmlookup M1 k' = (if k' = k then objTarget a b r M k else fmlookup M k'))"
proof (cases "fmlookup a k")
  case None
  then show ?thesis
    by (cases "fmlookup b k") (auto simp: keyDiff_def objTarget_def fmlookup_dom_iff)
next
  case (Some x)
  show ?thesis
  proof (cases "fmlookup b k")
    case None
    with Some show ?thesis
      by (auto simp: keyDiff_def objTarget_def fmlookup_dom_iff)
  next
    case (Some y)
    from assms[OF \<open>fmlookup a k = Some x\<close> Some] obtain c where
      c: "fmlookup M k = Some c" "applyPatchesJ (diffv x y) c = Inr (r k)" by blast
    have "applyPatchesJ (map (underKey k) (diffv x y)) (JObj M) = Inr (JObj (fmupd k (r k) M))"
      using applyPatchesJ_underKey[OF c(1), of "diffv x y"] c(2) wf_diffv by auto
    with Some \<open>fmlookup a k = Some x\<close> show ?thesis
      by (auto simp: keyDiff_def objTarget_def fmlookup_dom_iff)
  qed
qed

lemma objTarget_cong:
  "fmlookup M1 k = fmlookup M k \<Longrightarrow> objTarget a b r M1 k = objTarget a b r M k"
  by (simp add: objTarget_def)

lemma keys_apply:
  assumes "distinct ks"
    and "\<And>k x y. k \<in> set ks \<Longrightarrow> fmlookup a k = Some x \<Longrightarrow> fmlookup b k = Some y \<Longrightarrow>
             \<exists>c. fmlookup M k = Some c \<and> applyPatchesJ (diffv x y) c = Inr (r k)"
  shows "\<exists>R. applyPatchesJ
               (concat (map (\<lambda>k. keyDiff k (map_option diffv (fmlookup a k)) (fmlookup b k)) ks))
               (JObj M) = Inr (JObj R)
             \<and> (\<forall>k. fmlookup R k = (if k \<in> set ks then objTarget a b r M k else fmlookup M k))"
  using assms
proof (induction ks arbitrary: M)
  case Nil
  then show ?case by simp
next
  case (Cons k ks)
  from key_apply[of a k b M r] Cons.prems(2)[of k] obtain M1 where
    M1: "applyPatchesJ (keyDiff k (map_option diffv (fmlookup a k)) (fmlookup b k)) (JObj M)
           = Inr (JObj M1)"
        "\<And>k'. fmlookup M1 k' = (if k' = k then objTarget a b r M k else fmlookup M k')"
    by auto
  have k_notin: "k \<notin> set ks" and dist: "distinct ks" using Cons.prems(1) by auto
  have same: "\<And>k'. k' \<in> set ks \<Longrightarrow> fmlookup M1 k' = fmlookup M k'"
    using M1(2) k_notin by auto
  have "\<exists>R. applyPatchesJ
               (concat (map (\<lambda>k. keyDiff k (map_option diffv (fmlookup a k)) (fmlookup b k)) ks))
               (JObj M1) = Inr (JObj R)
             \<and> (\<forall>k. fmlookup R k = (if k \<in> set ks then objTarget a b r M1 k else fmlookup M1 k))"
  proof (rule Cons.IH[OF dist])
    fix k' x y
    assume "k' \<in> set ks" "fmlookup a k' = Some x" "fmlookup b k' = Some y"
    with Cons.prems(2)[of k' x y] same[of k']
    show "\<exists>c. fmlookup M1 k' = Some c \<and> applyPatchesJ (diffv x y) c = Inr (r k')"
      by auto
  qed
  then obtain R where
    R: "applyPatchesJ
          (concat (map (\<lambda>k. keyDiff k (map_option diffv (fmlookup a k)) (fmlookup b k)) ks))
          (JObj M1) = Inr (JObj R)"
       "\<And>k'. fmlookup R k' = (if k' \<in> set ks then objTarget a b r M1 k' else fmlookup M1 k')"
    by blast
  have "\<And>k'. fmlookup R k' = (if k' \<in> set (k # ks) then objTarget a b r M k' else fmlookup M k')"
    using R(2) M1(2) same objTarget_cong[of M1 _ M a b r] by auto
  with M1(1) R(1) show ?case
    by (auto simp: applyPatchesJ_append)
qed

lemma objDiff_apply:
  assumes "\<And>k x y. fmlookup a k = Some x \<Longrightarrow> fmlookup b k = Some y \<Longrightarrow>
             \<exists>c. fmlookup M k = Some c \<and> applyPatchesJ (diffv x y) c = Inr (r k)"
  shows "\<exists>R. applyPatchesJ (diffv (JObj a) (JObj b)) (JObj M) = Inr (JObj R)
             \<and> (\<forall>k. fmlookup R k = objTarget a b r M k)"
proof -
  let ?ks = "sorted_list_of_fset (fmdom a |\<union>| fmdom b)"
  have d: "distinct ?ks" by (simp add: sorted_list_of_fset.rep_eq)
  from keys_apply[of ?ks a b M r, OF d] assms obtain R where
    R: "applyPatchesJ
          (concat (map (\<lambda>k. keyDiff k (map_option diffv (fmlookup a k)) (fmlookup b k)) ?ks))
          (JObj M) = Inr (JObj R)"
       "\<And>k. fmlookup R k = (if k \<in> set ?ks then objTarget a b r M k else fmlookup M k)"
    by blast
  have "\<And>k. fmlookup R k = objTarget a b r M k"
    using R(2) by (auto simp: objTarget_def)
  with R(1) show ?thesis by (auto simp: diffv_JObj)
qed

lemma diffv_apply: "applyPatchesJ (diffv x y) x = Inr y"
proof (induction x arbitrary: y)
  case (JObj a)
  show ?case
  proof (cases y)
    case (JObj b)
    have "\<And>k x y. fmlookup a k = Some x \<Longrightarrow> fmlookup b k = Some y \<Longrightarrow>
             \<exists>c. fmlookup a k = Some c \<and> applyPatchesJ (diffv x y) c = Inr (the (fmlookup b k))"
      using JObj.IH by (auto simp: fmlookup_ran'_iff)
    from objDiff_apply[of a b a "\<lambda>k. the (fmlookup b k)", OF this] obtain R where
      R: "applyPatchesJ (diffv (JObj a) (JObj b)) (JObj a) = Inr (JObj R)"
         "\<And>k. fmlookup R k = objTarget a b (\<lambda>k. the (fmlookup b k)) a k"
      by blast
    have "R = b"
      by (rule fmap_ext) (auto simp: R(2) objTarget_def fmlookup_dom_iff)
    with R(1) JObj show ?thesis by simp
  qed simp_all
qed simp_all

section \<open>Bulk hydration and confirmation\<close>



lemma fold_set_entities_pending:
  "pendingTransactions (fold (\<lambda>entity d. d\<lparr>entities := fmupd (entityId entity) entity (entities d)\<rparr>) es s)
     = pendingTransactions s"
  by (induction es arbitrary: s) simp_all




lemma inherited_read:
  assumes "fmlookup dict key = None" and "key \<in> set objectPrototypeNames"
  shows "readProperty dict key = Inherited"
  using assms by (simp add: readProperty_def)




text \<open>
  Claim C10.  Confirming a transaction id that is not in the ledger leaves the whole cache
  state (entities and ledger) unchanged; \<open>confirmTransaction\<close> returns a store for every
  input, so nothing is thrown.
\<close>

theorem confirmTransaction_unknown:
  assumes "fmlookup (pendingTransactions (current store)) tid = None"
  shows "current (confirmTransaction tid store) = current store"
proof -
  have "fmdrop tid (pendingTransactions (current store)) = pendingTransactions (current store)"
    using assms by (intro fmdrop_idle) (simp add: fmlookup_dom_iff)
  then show ?thesis
    by (simp add: confirmTransaction_def update_store_def set_store_def produce_def)
qed

theorem confirmTransaction_unknown_witness:
  "fmlookup (pendingTransactions (current exStore)) ''tx1'' = None
   \<and> current (confirmTransaction ''tx1'' exStore) = current exStore"
  using confirmTransaction_unknown [of exStore "''tx1''"]
  by (simp add: exStore_def setEntities_def createDojoStore_def initialState_def
      update_store_def set_store_def produce_def fold_set_entities_pending)

text \<open>
  Claim C5.  For a transaction id that is in the ledger, \<open>confirmTransaction\<close> leaves the
  entities mapping as it was, so \<open>getEntities()\<close> returns the same list before and after;
  afterwards the ledger has no entry for the id, and every other ledger entry is as it
  was.
\<close>

theorem confirmTransaction_frame:
  assumes "fmlookup (pendingTransactions (current store)) tid = Some t"
  shows "entities (current (confirmTransaction tid store)) = entities (current store)
       \<and> getEntities None (confirmTransaction tid store) = getEntities None store
       \<and> fmlookup (pendingTransactions (current (confirmTransaction tid store))) tid = None
       \<and> (\<forall>other. other \<noteq> tid \<longrightarrow>
            fmlookup (pendingTransactions (current (confirmTransaction tid store))) other
              = fmlookup (pendingTransactions (current store)) other)"
  by (simp add: confirmTransaction_def update_store_def set_store_def produce_def
      getEntities_def get_store_def)

theorem confirmTransaction_frame_witness:
  "fmlookup (pendingTransactions (current exPendingStore)) ''tx1''
     = Some \<lparr>transactionId = ''tx1'', patches = [], inversePatches = []\<rparr>
   \<and> entities (current (confirmTransaction ''tx1'' exPendingStore)) = entities (current exPendingStore)
   \<and> fmlookup (pendingTransactions (current (confirmTransaction ''tx1'' exPendingStore))) ''tx1'' = None
   \<and> ''tx2'' \<noteq> ''tx1''
   \<and> fmlookup (pendingTransactions (current (confirmTransaction ''tx1'' exPendingStore))) ''tx2''
       = Some \<lparr>transactionId = ''tx2'', patches = [], inversePatches = []\<rparr>"
  using confirmTransaction_frame
          [of exPendingStore "''tx1''" "\<lparr>transactionId = ''tx1'', patches = [], inversePatches = []\<rparr>"]
  by (simp add: exPendingStore_def)

section \<open>Reading back an encoded state\<close>

lemma dec_obj_enc:
  assumes "\<And>x. d (e x) = Some x"
  shows "dec_obj d (JObj (fmmap e m)) = Some m"
proof -
  have "fmpred (\<lambda>k x. d x \<noteq> None) (fmmap e m)"
    using assms by auto
  moreover have "fmmap (\<lambda>x. the (d x)) (fmmap e m) = m"
    using assms by (intro fmap_ext) (simp add: option.map_comp comp_def option.map_ident)
  ultimately show ?thesis by (simp add: dec_obj_def)
qed

lemma dec_list_enc:
  assumes "\<And>x. d (e x) = Some x"
  shows "dec_list d (JArr (map e xs)) = Some xs"
  using assms by (simp add: dec_list_def list_all_iff comp_def)

lemma dec_fields_enc: "dec_fields (JObj f) = Some f"
  by (simp add: dec_fields_def)

lemma dec_models_enc: "dec_models (enc_models ms) = Some ms"
proof -
  have inner: "\<And>nsm. dec_obj dec_fields (JObj (fmmap JObj nsm)) = Some nsm"
    by (rule dec_obj_enc) (rule dec_fields_enc)
  show ?thesis
    unfolding dec_models_def enc_models_def
    by (rule dec_obj_enc) (rule inner)
qed

lemma dec_entity_enc: "dec_entity (enc_entity e) = Some e"
  by (simp add: dec_entity_def enc_entity_def dec_models_enc dec_str_def)

lemma dec_path_enc: "dec_list dec_str (JArr (map JStr p)) = Some p"
  by (rule dec_list_enc) (simp add: dec_str_def)

lemma dec_patch_enc: "dec_patch (enc_patch p) = Some p"
  by (cases p) (auto simp: dec_patch_def dec_path_enc dec_str_def)

lemma dec_patches_enc: "dec_list dec_patch (JArr (map enc_patch ps)) = Some ps"
  by (rule dec_list_enc) (rule dec_patch_enc)

lemma dec_pending_enc: "dec_pending (enc_pending t) = Some t"
  by (auto simp: dec_pending_def enc_pending_def dec_patches_enc dec_str_def)

lemma dec_state_enc: "dec_state (enc_state s) = Some s"
proof -
  have e: "dec_obj dec_entity (JObj (fmmap enc_entity (entities s))) = Some (entities s)"
    by (rule dec_obj_enc) (rule dec_entity_enc)
  have p: "dec_obj dec_pending (JObj (fmmap enc_pending (pendingTransactions s)))
             = Some (pendingTransactions s)"
    by (rule dec_obj_enc) (rule dec_pending_enc)
  show ?thesis
    by (auto simp: dec_state_def enc_state_def e p)
qed

section \<open>Optimistic updates\<close>

text \<open>
  The scripts of \<open>produceWithPatches\<close> do what the spec (section 3) asks of them: the
  forward script rebuilds the new state from the old one, the inverse script the old
  state from the new one.
\<close>

lemma produceWithPatches_scripts:
  assumes "produceWithPatches base recipe = Inr (nextState, ps, ips)"
  shows "applyPatches base ps = Inr nextState" and "applyPatches nextState ips = Inr base"
  using assms
  by (auto simp: produceWithPatches_def applyPatches_def diffv_apply dec_state_enc
      split: sum.splits)

lemma current_exStore:
  "current exStore = \<lparr>entities = fmupd ''e1'' exEntity fmempty, pendingTransactions = fmempty\<rparr>"
  by (simp add: exStore_def setEntities_def createDojoStore_def initialState_def
      update_store_def set_store_def produce_def exEntity_def)

lemma exRecipe_exStore: "exRecipe (current exStore) = Inr exNext"
  by (simp add: current_exStore exRecipe_def setModelField_def exEntity_def exNext_def)

text \<open>
  On the scenario the structural diff yields the scripts that immer records for the
  assignment of one field: a single \<open>replace\<close> at the path of the field.
\<close>

lemma ex_forward: "diffv (enc_state (current exStore)) (enc_state exNext) = [Replace exRemainingPath (JNum 100)]"
  by code_simp

lemma ex_inverse: "diffv (enc_state exNext) (enc_state (current exStore)) = [Replace exRemainingPath (JNum 0)]"
  by code_simp

lemma applyOptimisticUpdate_result:
  assumes "updateFn (current store) = Inr next"
  shows "applyOptimisticUpdate tid updateFn store =
           Inr \<lparr>current = next\<lparr>pendingTransactions :=
                    fmupd tid \<lparr>transactionId = tid,
                               patches = diffv (enc_state (current store)) (enc_state next),
                               inversePatches = diffv (enc_state next) (enc_state (current store))\<rparr>
                      (pendingTransactions next)\<rparr>,
                delivered = delivered store @
                  [next,
                   next\<lparr>pendingTransactions :=
                    fmupd tid \<lparr>transactionId = tid,
                               patches = diffv (enc_state (current store)) (enc_state next),
                               inversePatches = diffv (enc_state next) (enc_state (current store))\<rparr>
                      (pendingTransactions next)\<rparr>]\<rparr>"
  using assms
  by (simp add: applyOptimisticUpdate_def produceWithPatches_def get_store_def
      update_store_def set_store_def produce_def Let_def)

lemma ex_applied:
  "applyOptimisticUpdate ''tx1'' exRecipe exStore
     = Inr \<lparr>current = current exOptimisticStore,
            delivered = delivered exStore @ [exNext, current exOptimisticStore]\<rparr>"
  using applyOptimisticUpdate_result[of exRecipe exStore exNext "''tx1''"] exRecipe_exStore
  by (simp add: ex_inverse ex_forward exOptimisticStore_def)
     (simp add: exNext_def)







section \<open>Reverting\<close>








text \<open>
  The scenario, continued: reverting \<open>tx1\<close> applies the inverse script to the current
  state and gives back the seeded state, \<open>remaining = 0\<close> and an empty ledger.
\<close>

lemma fmupd_over:
  "a \<noteq> b \<Longrightarrow> fmupd a x (fmupd b y (fmupd a z m)) = fmupd b y (fmupd a x m)"
  by (rule fmap_ext) auto

lemma exOptimistic_patched:
  "applyPatches (current exOptimisticStore) [Replace exRemainingPath (JNum 0)]
     = Inr ((current exOptimisticStore)\<lparr>entities := entities (current exStore)\<rparr>)"
proof -
  have "applyPatchesJ [Replace exRemainingPath (JNum 0)] (enc_state (current exOptimisticStore))
          = Inr (enc_state ((current exOptimisticStore)\<lparr>entities := entities (current exStore)\<rparr>))"
    by (simp add: exOptimisticStore_def exRemainingPath_def enc_state_def exNext_def
        current_exStore exEntity_def enc_entity_def enc_models_def fmmap_fmupd fmupd_over)
  then show ?thesis
    by (simp add: applyPatches_def dec_state_enc)
qed

lemma ex_reverted:
  "stateOf (revertOptimisticUpdate ''tx1'' exOptimisticStore) = Inr (current exStore)"
proof -
  have "fmdrop ''tx1'' (pendingTransactions (current exOptimisticStore)) = fmempty"
    by (rule fmap_ext) (simp add: exOptimisticStore_def)
  with exOptimistic_patched show ?thesis
    by (simp add: revertOptimisticUpdate_def get_store_def update_store_def set_store_def
      produce_def stateOf_def Let_def current_exStore exOptimisticStore_def readProperty_def)
qed

lemma end_to_end_scenario:
  "Option.bind (getEntity ''e1'' exStore) (\<lambda>e. modelField e ''dojo_starter'' ''Moves'' ''remaining'')
     = Some (JNum 0)"
  "stateOf (applyOptimisticUpdate ''tx1'' exRecipe exStore) = Inr (current exOptimisticStore)"
  "Option.bind (getEntity ''e1'' exOptimisticStore)
     (\<lambda>e. modelField e ''dojo_starter'' ''Moves'' ''remaining'') = Some (JNum 100)"
  "stateOf (revertOptimisticUpdate ''tx1'' exOptimisticStore) = Inr (current exStore)"
  "fmlookup (pendingTransactions (current exStore)) ''tx1'' = None"
proof -
  show "Option.bind (getEntity ''e1'' exStore)
          (\<lambda>e. modelField e ''dojo_starter'' ''Moves'' ''remaining'') = Some (JNum 0)"
    by (simp add: getEntity_def get_store_def current_exStore exEntity_def modelField_def)
  show "stateOf (applyOptimisticUpdate ''tx1'' exRecipe exStore) = Inr (current exOptimisticStore)"
    by (simp add: ex_applied stateOf_def)
  show "Option.bind (getEntity ''e1'' exOptimisticStore)
          (\<lambda>e. modelField e ''dojo_starter'' ''Moves'' ''remaining'') = Some (JNum 100)"
    by (simp add: getEntity_def get_store_def exOptimisticStore_def exNext_def modelField_def)
  show "stateOf (revertOptimisticUpdate ''tx1'' exOptimisticStore) = Inr (current exStore)"
    by (rule ex_reverted)
  show "fmlookup (pendingTransactions (current exStore)) ''tx1'' = None"
    by (simp add: current_exStore)
qed

lemma revert_inherited_name:
  assumes "fmlookup (pendingTransactions (current store)) tid = None"
    and "tid \<in> set objectPrototypeNames"
  shows "revertOptimisticUpdate tid store = Inl TypeError"
  using assms
  by (simp add: revertOptimisticUpdate_def get_store_def Let_def readProperty_def)




section \<open>Merging an update into an entity\<close>












section \<open>Waiting for an entity to change\<close>

text \<open>
  When the entity does not satisfy the predicate at the time of the call, the waiter is
  set up as intended: a later notification that satisfies the predicate deregisters the
  listener, clears the timer and resolves with the entity; other notifications change
  nothing; and the timer, if it fires first, deregisters the listener and rejects with
  the timeout.
\<close>

lemma wait_starts:
  assumes "\<not> predicate (getEntity eid store)"
  shows "waitForEntityChange eid predicate timeout store
           = \<lparr>listening = True, timer = Armed timeout, promise = Pending\<rparr>"
  using assms
  by (simp add: waitForEntityChange_def waitListener_def getEntity_def get_store_def Let_def)

lemma wait_resolves:
  assumes "predicate (fmlookup (entities state) eid)"
  shows "notify eid predicate state \<lparr>listening = True, timer = Armed timeout, promise = Pending\<rparr>
           = Inr \<lparr>listening = False, timer = Cleared,
                  promise = Resolved (fmlookup (entities state) eid)\<rparr>"
  using assms by (simp add: notify_def waitListener_def settle_def Let_def)

lemma wait_keeps_waiting:
  assumes "\<not> predicate (fmlookup (entities state) eid)"
  shows "notify eid predicate state w = Inr w"
  using assms by (simp add: notify_def waitListener_def Let_def)

lemma wait_times_out:
  "timerFired \<lparr>listening = True, timer = Armed timeout, promise = Pending\<rparr>
     = \<lparr>listening = False, timer = Fired, promise = Rejected (TimeoutError timeout)\<rparr>"
  by (simp add: timerFired_def settle_def)

lemma wait_immediate_match:
  assumes "predicate (getEntity eid store)"
  shows "waitForEntityChange eid predicate timeout store
           = \<lparr>listening = True, timer = Uninitialized, promise = Rejected ReferenceError\<rparr>"
  using assms
  by (simp add: waitForEntityChange_def waitListener_def getEntity_def get_store_def Let_def)

text \<open>
  Claim C8 does not hold on the code when the first notification, the one that
  \<open>subscribe\<close> makes at once with the current state, already satisfies the predicate.
  In the seeded store the entity \<open>e1\<close> has \<open>remaining = 0\<close>; waiting for \<open>remaining = 0\<close>
  leaves the promise rejected with a ReferenceError, the listener still registered and
  no timer set, where the claim has the listener deregistered and the promise resolved
  with the entity.
\<close>

theorem waitForEntityChange_already_satisfied:
  "exAlreadyTrue (getEntity ''e1'' exStore)
   \<and> waitForEntityChange ''e1'' exAlreadyTrue 6000 exStore
       = \<lparr>listening = True, timer = Uninitialized, promise = Rejected ReferenceError\<rparr>"
proof -
  have "exAlreadyTrue (getEntity ''e1'' exStore)"
    by (simp add: exAlreadyTrue_def getEntity_def get_store_def current_exStore exEntity_def
        modelField_def)
  then show ?thesis by (simp add: wait_immediate_match)
qed

end
